theory Spec2Isabelle
  imports Main "HOL-Library.Word"
begin

unbundle bit_operations_syntax

section \<open>Luma: a PowerPC emitter (luma.hpp)\<close>

text \<open>
  A shallow embedding of \<^verbatim>\<open>Luma::PPCEmitter\<close>. The emitter object is a record, the
  memory it writes to is an explicit byte store indexed by address, and \<^verbatim>\<open>panic\<close>
  (which prints and never returns) is the error value \<open>Panic\<close>.

  Pointers and \<^verbatim>\<open>uintptr_t\<close> are 32-bit words: the library emits code that runs in place
  on a 32-bit PowerPC host. \<^verbatim>\<open>intptr_t\<close> is the same word read through \<open>sint\<close>.
\<close>

subsection \<open>Machine types\<close>

type_synonym u8 = "8 word"
type_synonym u16 = "16 word"
type_synonym u32 = "32 word"
type_synonym u64 = "64 word"
type_synonym uintptr = "32 word"

text \<open>\<^verbatim>\<open>enum GPR\<close>: the thirty-two general purpose registers, with their numeric values.\<close>

datatype GPR =
    r0 | r1 | r2 | r3 | r4 | r5 | r6 | r7
  | r8 | r9 | r10 | r11 | r12 | r13 | r14 | r15
  | r16 | r17 | r18 | r19 | r20 | r21 | r22 | r23
  | r24 | r25 | r26 | r27 | r28 | r29 | r30 | r31

fun gpr :: "GPR \<Rightarrow> u32" where
  "gpr r0 = 0" | "gpr r1 = 1" | "gpr r2 = 2" | "gpr r3 = 3"
| "gpr r4 = 4" | "gpr r5 = 5" | "gpr r6 = 6" | "gpr r7 = 7"
| "gpr r8 = 8" | "gpr r9 = 9" | "gpr r10 = 10" | "gpr r11 = 11"
| "gpr r12 = 12" | "gpr r13 = 13" | "gpr r14 = 14" | "gpr r15 = 15"
| "gpr r16 = 16" | "gpr r17 = 17" | "gpr r18 = 18" | "gpr r19 = 19"
| "gpr r20 = 20" | "gpr r21 = 21" | "gpr r22 = 22" | "gpr r23 = 23"
| "gpr r24 = 24" | "gpr r25 = 25" | "gpr r26 = 26" | "gpr r27 = 27"
| "gpr r28 = 28" | "gpr r29 = 29" | "gpr r30 = 30" | "gpr r31 = 31"

text \<open>\<^verbatim>\<open>enum class Cond\<close>, with the ordinal the code casts it to.\<close>

datatype Cond = Lt | Gt | Eq | Os | Ge | Le | Ne | Oc

fun cond_ord :: "Cond \<Rightarrow> u32" where
  "cond_ord Lt = 0" | "cond_ord Gt = 1" | "cond_ord Eq = 2" | "cond_ord Os = 3"
| "cond_ord Ge = 4" | "cond_ord Le = 5" | "cond_ord Ne = 6" | "cond_ord Oc = 7"

datatype BranchType = Branch14 | Branch24

datatype GrowingMode = FixedSize | AutoGrow

datatype error = Panic

type_synonym BranchLabel = "uintptr \<times> BranchType"

text \<open>A C++ \<^verbatim>\<open>bool\<close> converted to an integer, as in \<^verbatim>\<open>... | setFlags\<close>.\<close>

definition bool_bit :: "bool \<Rightarrow> u32" where
  "bool_bit b = (if b then 1 else 0)"

subsection \<open>Memory\<close>

text \<open>
  Memory is a byte store. A value of type \<^verbatim>\<open>T\<close> occupies \<^verbatim>\<open>sizeof(T)\<close> consecutive
  bytes in the byte order of the host.
\<close>

type_synonym memory = "uintptr \<Rightarrow> u8"

primrec le_bytes :: "nat \<Rightarrow> 't::len word \<Rightarrow> u8 list" where
  "le_bytes 0 v = []"
| "le_bytes (Suc n) v = ucast v # le_bytes n (drop_bit 8 v)"

primrec le_word :: "u8 list \<Rightarrow> 't::len word" where
  "le_word [] = 0"
| "le_word (b # bs) = ucast b OR push_bit 8 (le_word bs)"

definition host_bytes :: "bool \<Rightarrow> 't::len word \<Rightarrow> u8 list" where
  "host_bytes be v =
     (if be then rev (le_bytes (LENGTH('t) div 8) v) else le_bytes (LENGTH('t) div 8) v)"

definition host_word :: "bool \<Rightarrow> u8 list \<Rightarrow> 't::len word" where
  "host_word be bs = le_word (if be then rev bs else bs)"

definition store_bytes :: "memory \<Rightarrow> uintptr \<Rightarrow> u8 list \<Rightarrow> memory" where
  "store_bytes m a bs = (\<lambda>x. if unat (x - a) < length bs then bs ! unat (x - a) else m x)"

definition load_bytes :: "memory \<Rightarrow> uintptr \<Rightarrow> nat \<Rightarrow> u8 list" where
  "load_bytes m a n = map (\<lambda>i. m (a + of_nat i)) [0..<n]"

text \<open>\<^verbatim>\<open>std::memcpy (dst, src, n)\<close>: the \<open>n\<close> bytes at \<open>dst\<close> become those at \<open>src\<close>.\<close>

definition memcpy :: "memory \<Rightarrow> uintptr \<Rightarrow> uintptr \<Rightarrow> uintptr \<Rightarrow> memory" where
  "memcpy m dst src n = (\<lambda>x. if x - dst < n then m (src + (x - dst)) else m x)"

subsection \<open>The emitter object\<close>

text \<open>
  The four data members of \<^verbatim>\<open>PPCEmitter\<close>, the template parameter \<^verbatim>\<open>growMode\<close>, and the
  environment the object lives in: the byte order of the host, the memory, and the address
  \<^verbatim>\<open>new uint32_t [n]\<close> returns for a request of \<open>n\<close> words.
\<close>

record emitter =
  code :: uintptr
  currentPointer :: uintptr
  reservedSize :: uintptr
  autoGrowSize :: uintptr
  growMode :: GrowingMode
  bigEndian :: bool
  mem :: memory
  heap_new :: "uintptr \<Rightarrow> uintptr"

definition getCurr :: "emitter \<Rightarrow> uintptr" where
  "getCurr s = currentPointer s"

definition getCodeSize :: "emitter \<Rightarrow> uintptr" where
  "getCodeSize s = currentPointer s - code s"

text \<open>Reading and writing a \<^verbatim>\<open>T\<close> through a pointer: \<^verbatim>\<open>*(T*) a\<close> and \<^verbatim>\<open>*(T*) a = v\<close>.\<close>

definition peek :: "emitter \<Rightarrow> uintptr \<Rightarrow> 't::len word" where
  "peek s a = host_word (bigEndian s) (load_bytes (mem s) a (LENGTH('t) div 8))"

definition poke :: "uintptr \<Rightarrow> 't::len word \<Rightarrow> emitter \<Rightarrow> emitter" where
  "poke a v s = s\<lparr>mem := store_bytes (mem s) a (host_bytes (bigEndian s) v)\<rparr>"

text \<open>The body of the \<^verbatim>\<open>if\<close> in \<^verbatim>\<open>write\<close>: reallocate, copy, and move the cursor.\<close>

definition growBuffer :: "emitter \<Rightarrow> emitter" where
  "growBuffer s =
     (let currentSize = getCodeSize s;
          newSize = reservedSize s + autoGrowSize s;
          newBuffer = heap_new s (newSize div 4)
      in s\<lparr>mem := memcpy (mem s) newBuffer (code s) currentSize,
           code := newBuffer,
           currentPointer := newBuffer + currentSize,
           reservedSize := newSize\<rparr>)"

text \<open>
  \<^verbatim>\<open>template <typename T> void write (T val)\<close>, here \<open>writeT\<close>. The size test is compiled in for
  \<^verbatim>\<open>AutoGrow\<close> only; the store through the cursor is unconditional.
\<close>

definition will_grow :: "nat \<Rightarrow> emitter \<Rightarrow> bool" where
  "will_grow n s \<longleftrightarrow> growMode s = AutoGrow \<and> reservedSize s \<le> getCodeSize s + of_nat n"

definition writeT :: "'t::len word \<Rightarrow> emitter \<Rightarrow> emitter" where
  "writeT val s =
     (let s1 = (if will_grow (LENGTH('t) div 8) s then growBuffer s else s)
      in (poke (currentPointer s1) val s1)
           \<lparr>currentPointer := currentPointer s1 + of_nat (LENGTH('t) div 8)\<rparr>)"

definition write8 :: "u8 \<Rightarrow> emitter \<Rightarrow> emitter" where
  "write8 val s = writeT val s"

definition write16 :: "u16 \<Rightarrow> emitter \<Rightarrow> emitter" where
  "write16 val s = writeT val s"

definition write32 :: "u32 \<Rightarrow> emitter \<Rightarrow> emitter" where
  "write32 val s = writeT val s"

definition write64 :: "u64 \<Rightarrow> emitter \<Rightarrow> emitter" where
  "write64 val s = writeT val s"

subsection \<open>Instructions\<close>

definition ori :: "GPR \<Rightarrow> GPR \<Rightarrow> u16 \<Rightarrow> emitter \<Rightarrow> emitter" where
  "ori dest src imm s =
     write32 (0x60000000 OR push_bit 21 (gpr src) OR push_bit 16 (gpr dest) OR ucast imm) s"


text \<open>\<^verbatim>\<open>addi\<close> and \<^verbatim>\<open>addis\<close> take an \<^verbatim>\<open>int16_t\<close> and cast it back to \<^verbatim>\<open>uint16_t\<close>.\<close>

definition addi :: "GPR \<Rightarrow> GPR \<Rightarrow> u16 \<Rightarrow> emitter \<Rightarrow> emitter" where
  "addi dest src imm s =
     write32 (0x38000000 OR push_bit 21 (gpr dest) OR push_bit 16 (gpr src) OR ucast imm) s"

definition addis :: "GPR \<Rightarrow> GPR \<Rightarrow> u16 \<Rightarrow> emitter \<Rightarrow> emitter" where
  "addis dest src imm s =
     write32 (0x3C000000 OR push_bit 21 (gpr dest) OR push_bit 16 (gpr src) OR ucast imm) s"

definition li :: "GPR \<Rightarrow> u16 \<Rightarrow> emitter \<Rightarrow> emitter" where
  "li reg imm s = addi reg r0 imm s"

definition lis :: "GPR \<Rightarrow> u16 \<Rightarrow> emitter \<Rightarrow> emitter" where
  "lis reg imm s = addis reg r0 imm s"

text \<open>
  \<^verbatim>\<open>liw\<close>: \<^verbatim>\<open>li (reg, imm)\<close> truncates the 32-bit value to its low halfword, and
  \<^verbatim>\<open>imm >> 16\<close> is passed as a halfword.
\<close>

definition liw :: "GPR \<Rightarrow> u32 \<Rightarrow> emitter \<Rightarrow> emitter" where
  "liw reg imm s =
     (if imm \<le> 0x7FFF \<or> imm \<ge> 0xFFFF8000 then li reg (ucast imm) s
      else if imm AND 0xFFFF = 0 then lis reg (ucast (drop_bit 16 imm)) s
      else ori reg reg (ucast imm) (lis reg (ucast (drop_bit 16 imm)) s))"

text \<open>
  \<^verbatim>\<open>rlwinm\<close> and its aliases. The fields are \<^verbatim>\<open>uint8_t\<close>; an argument such as
  \<^verbatim>\<open>31 - shift\<close> is computed in \<^verbatim>\<open>int\<close> and converted to \<^verbatim>\<open>uint8_t\<close> at the call, which is
  subtraction modulo 256.
\<close>

definition rlwinm :: "bool \<Rightarrow> GPR \<Rightarrow> GPR \<Rightarrow> u8 \<Rightarrow> u8 \<Rightarrow> u8 \<Rightarrow> emitter \<Rightarrow> emitter" where
  "rlwinm setFlags dest src shift mb me s =
     write32 (0x54000000 OR push_bit 21 (gpr src) OR push_bit 16 (gpr dest)
              OR push_bit 11 (ucast shift AND 31) OR push_bit 6 (ucast mb)
              OR push_bit 1 (ucast me) OR bool_bit setFlags) s"

definition slwi :: "bool \<Rightarrow> GPR \<Rightarrow> GPR \<Rightarrow> u8 \<Rightarrow> emitter \<Rightarrow> emitter" where
  "slwi setFlags dest src shift s = rlwinm setFlags dest src shift 0 (31 - shift) s"

definition srwi :: "bool \<Rightarrow> GPR \<Rightarrow> GPR \<Rightarrow> u8 \<Rightarrow> emitter \<Rightarrow> emitter" where
  "srwi setFlags dest src shift s = rlwinm setFlags dest src (32 - shift) shift 31 s"

definition clrlwi :: "bool \<Rightarrow> GPR \<Rightarrow> GPR \<Rightarrow> u8 \<Rightarrow> emitter \<Rightarrow> emitter" where
  "clrlwi setFlags dest src len s = rlwinm setFlags dest src 0 len 31 s"

definition clrrwi :: "bool \<Rightarrow> GPR \<Rightarrow> GPR \<Rightarrow> u8 \<Rightarrow> emitter \<Rightarrow> emitter" where
  "clrrwi setFlags dest src len s = rlwinm setFlags dest src 0 0 (31 - len) s"

definition rotlwi :: "bool \<Rightarrow> GPR \<Rightarrow> GPR \<Rightarrow> u8 \<Rightarrow> emitter \<Rightarrow> emitter" where
  "rotlwi setFlags dest src amount s = rlwinm setFlags dest src amount 0 31 s"

definition rotrwi :: "bool \<Rightarrow> GPR \<Rightarrow> GPR \<Rightarrow> u8 \<Rightarrow> emitter \<Rightarrow> emitter" where
  "rotrwi setFlags dest src amount s = rlwinm setFlags dest src (32 - amount) 0 31 s"

definition extlwi :: "bool \<Rightarrow> GPR \<Rightarrow> GPR \<Rightarrow> u8 \<Rightarrow> u8 \<Rightarrow> emitter \<Rightarrow> emitter" where
  "extlwi setFlags dest src n b s = rlwinm setFlags dest src b 0 (n - 1) s"

definition extrwi :: "bool \<Rightarrow> GPR \<Rightarrow> GPR \<Rightarrow> u8 \<Rightarrow> u8 \<Rightarrow> emitter \<Rightarrow> emitter" where
  "extrwi setFlags dest src n b s = rlwinm setFlags dest src (b + n) (32 - n) 31 s"

definition liu :: "GPR \<Rightarrow> u16 \<Rightarrow> emitter \<Rightarrow> emitter" where
  "liu reg imm s = (if imm < 0x8000 then li reg imm s else ori reg reg imm (li reg 0 s))"

subsection \<open>Directives\<close>

definition db :: "u8 \<Rightarrow> emitter \<Rightarrow> emitter" where
  "db val s = write8 val s"

definition dh :: "u16 \<Rightarrow> emitter \<Rightarrow> emitter" where
  "dh val s = write16 val s"

definition dw :: "u32 \<Rightarrow> emitter \<Rightarrow> emitter" where
  "dw val s = write32 val s"

definition dd :: "u64 \<Rightarrow> emitter \<Rightarrow> emitter" where
  "dd val s = write64 val s"

text \<open>
  \<^verbatim>\<open>ds (const char* str)\<close>: the characters before the first NUL, then a NUL. The string
  is given as the list of its bytes.
\<close>

definition ds :: "u8 list \<Rightarrow> emitter \<Rightarrow> emitter" where
  "ds str s = db 0 (fold db (takeWhile (\<lambda>c. c \<noteq> 0) str) s)"

text \<open>
  \<^verbatim>\<open>align (int bytes)\<close>. The loop \<^verbatim>\<open>while (remainder--) write8 (0)\<close> runs \<open>remainder\<close>
  times; \<open>write_zeros\<close> is that loop, counting down.
\<close>

primrec write_zeros :: "nat \<Rightarrow> emitter \<Rightarrow> emitter" where
  "write_zeros 0 s = s"
| "write_zeros (Suc n) s = write_zeros n (write8 0 s)"

definition align :: "u32 \<Rightarrow> emitter \<Rightarrow> error + emitter" where
  "align bytes s =
     (if bytes = 1 then Inr s
      else if sint bytes < 1 then Inl Panic
      else (let remainder = getCurr s mod bytes
            in Inr (write_zeros (unat remainder) s)))"

subsection \<open>Branches and labels\<close>

definition emitBranch14 :: "u32 \<Rightarrow> emitter \<Rightarrow> emitter \<times> BranchLabel" where
  "emitBranch14 opcode s =
     (let cia = currentPointer s
      in (write32 opcode s, (cia, Branch14)))"

definition bx :: "bool \<Rightarrow> emitter \<Rightarrow> emitter \<times> BranchLabel" where
  "bx link s =
     (let cia = currentPointer s
      in (write32 (0x48000000 OR bool_bit link) s, (cia, Branch24)))"

text \<open>\<^verbatim>\<open>b ()\<close> and \<^verbatim>\<open>bl ()\<close>, here \<open>branch_b\<close> and \<open>branch_bl\<close>.\<close>

definition branch_b :: "emitter \<Rightarrow> emitter \<times> BranchLabel" where
  "branch_b s = bx False s"

definition branch_bl :: "emitter \<Rightarrow> emitter \<times> BranchLabel" where
  "branch_bl s = bx True s"

definition bcx :: "Cond \<Rightarrow> bool \<Rightarrow> emitter \<Rightarrow> emitter \<times> BranchLabel" where
  "bcx cond link s =
     (let shouldBitBeSet = (cond_ord cond \<le> 3);
          bit = cond_ord cond AND 3
      in emitBranch14 (0x40800000 OR push_bit 24 (bool_bit shouldBitBeSet)
                       OR push_bit 16 bit OR bool_bit link) s)"


text \<open>\<^verbatim>\<open>bx (void* address)\<close>: the branch to a target known when it is emitted.\<close>

definition bx_to :: "bool \<Rightarrow> uintptr \<Rightarrow> emitter \<Rightarrow> error + emitter" where
  "bx_to link address s =
     (let cia = currentPointer s;
          disp = address - cia
      in if address AND 3 \<noteq> 0 then Inl Panic
         else if - 0x2000000 \<le> sint disp \<and> sint disp \<le> 0x1FFFFFF
           then Inr (write32 (0x48000000 OR (disp AND 0x3FFFFFC) OR bool_bit link) s)
         else if - 0x2000000 \<le> sint address \<and> sint address \<le> 0x1FFFFFF
           then Inr (write32 (0x48000000 OR (address AND 0x3FFFFFC) OR 2 OR bool_bit link) s)
         else Inl Panic)"

text \<open>
  \<^verbatim>\<open>setLabel (BranchLabel label, void* address)\<close>. \<^verbatim>\<open>disp\<close> is an \<^verbatim>\<open>intptr_t\<close>; the
  comparisons read it signed, the masks work on its bits.
\<close>

definition setLabel :: "BranchLabel \<Rightarrow> uintptr \<Rightarrow> emitter \<Rightarrow> error + emitter" where
  "setLabel label address s =
     (let instrAddress = fst label;
          type = snd label;
          disp = address - instrAddress
      in if disp AND 3 \<noteq> 0 then Inl Panic
         else (case type of
           Branch14 \<Rightarrow>
             if sint disp \<le> 32767 \<and> - 32768 \<le> sint disp
               then Inr (poke instrAddress
                      (((peek s instrAddress :: u32) AND NOT 0xFFFE) OR (disp AND 0xFFFC)) s)
             else if sint address \<le> 32767 \<and> - 32768 \<le> sint address
               then Inr (poke instrAddress
                      (((peek s instrAddress :: u32) AND NOT 0xFFFE) OR (address AND 0xFFFC) OR 2) s)
             else Inl Panic
         | Branch24 \<Rightarrow>
             if - 0x2000000 \<le> sint disp \<and> sint disp \<le> 0x1FFFFFF
               then Inr (poke instrAddress
                      (((peek s instrAddress :: u32) AND NOT 0x3FFFFFE) OR (disp AND 0x3FFFFFC)) s)
             else if - 0x2000000 \<le> sint address \<and> sint address \<le> 0x1FFFFFF
               then Inr (poke instrAddress
                      (((peek s instrAddress :: u32) AND NOT 0x3FFFFFE) OR (address AND 0x3FFFFFC) OR 2) s)
             else Inl Panic))"

text \<open>\<^verbatim>\<open>setLabel (BranchLabel label)\<close>: the target is the cursor.\<close>

definition setLabel_here :: "BranchLabel \<Rightarrow> emitter \<Rightarrow> error + emitter" where
  "setLabel_here label s = setLabel label (currentPointer s) s"

text \<open>\<^verbatim>\<open>setBuffer\<close> assigns the three members first and checks the size afterwards.\<close>

definition setBuffer :: "uintptr \<Rightarrow> uintptr \<Rightarrow> emitter \<Rightarrow> error + emitter" where
  "setBuffer pointer bufferSize s =
     (if bufferSize AND 3 \<noteq> 0 then Inl Panic
      else Inr (s\<lparr>code := pointer, currentPointer := pointer, reservedSize := bufferSize\<rparr>))"

subsection \<open>Sequences of calls\<close>

text \<open>
  The calls a client can make on an emitter, and a client as a list of calls. \<open>Instr w\<close>
  stands for any mnemonic whose body is one \<^verbatim>\<open>write32\<close> of its encoding \<open>w\<close>; the
  branch calls drop the label they return. A panic ends the run.
\<close>

datatype operation =
    Db u8 | Dh u16 | Dw u32 | Dd u64
  | Ds "u8 list"
  | Align u32
  | Instr u32
  | Liw GPR u32
  | Liu GPR u16
  | Bcx Cond bool
  | Bx bool
  | BxTo bool uintptr
  | SetLabel BranchLabel uintptr
  | SetLabelHere BranchLabel

fun perform :: "operation \<Rightarrow> emitter \<Rightarrow> error + emitter" where
  "perform (Db v) s = Inr (db v s)"
| "perform (Dh v) s = Inr (dh v s)"
| "perform (Dw v) s = Inr (dw v s)"
| "perform (Dd v) s = Inr (dd v s)"
| "perform (Ds str) s = Inr (ds str s)"
| "perform (Align n) s = align n s"
| "perform (Instr w) s = Inr (write32 w s)"
| "perform (Liw reg v) s = Inr (liw reg v s)"
| "perform (Liu reg v) s = Inr (liu reg v s)"
| "perform (Bcx c link) s = Inr (fst (bcx c link s))"
| "perform (Bx link) s = Inr (fst (bx link s))"
| "perform (BxTo link a) s = bx_to link a s"
| "perform (SetLabel l a) s = setLabel l a s"
| "perform (SetLabelHere l) s = setLabel_here l s"

fun perform_all :: "operation list \<Rightarrow> emitter \<Rightarrow> error + emitter" where
  "perform_all [] s = Inr s"
| "perform_all (x # xs) s =
     (case perform x s of Inl e \<Rightarrow> Inl e | Inr s' \<Rightarrow> perform_all xs s')"

text \<open>The number of bytes a call appends, and a run of calls.\<close>

fun appends :: "operation \<Rightarrow> emitter \<Rightarrow> nat" where
  "appends (Db v) s = 1"
| "appends (Dh v) s = 2"
| "appends (Dw v) s = 4"
| "appends (Dd v) s = 8"
| "appends (Ds str) s = length (takeWhile (\<lambda>c. c \<noteq> 0) str) + 1"
| "appends (Align n) s = (if n = 1 then 0 else unat (getCurr s mod n))"
| "appends (Instr w) s = 4"
| "appends (Liw reg v) s =
     (if v \<le> 0x7FFF \<or> v \<ge> 0xFFFF8000 \<or> v AND 0xFFFF = 0 then 4 else 8)"
| "appends (Liu reg v) s = (if v < 0x8000 then 4 else 8)"
| "appends (Bcx c link) s = 4"
| "appends (Bx link) s = 4"
| "appends (BxTo link a) s = 4"
| "appends (SetLabel l a) s = 0"
| "appends (SetLabelHere l) s = 0"

fun appends_all :: "operation list \<Rightarrow> emitter \<Rightarrow> nat" where
  "appends_all [] s = 0"
| "appends_all (x # xs) s =
     appends x s + (case perform x s of Inl e \<Rightarrow> 0 | Inr s' \<Rightarrow> appends_all xs s')"

text \<open>
  \<open>s'\<close> has the buffer of \<open>s\<close>, with the cursor \<open>n\<close> bytes further.
\<close>

definition advances :: "nat \<Rightarrow> emitter \<Rightarrow> emitter \<Rightarrow> bool" where
  "advances n s s' \<longleftrightarrow>
     code s' = code s \<and> reservedSize s' = reservedSize s \<and> growMode s' = growMode s
     \<and> currentPointer s' = currentPointer s + of_nat n"


subsection \<open>What the emitted words mean\<close>

text \<open>
  The repository encodes instructions and never runs them. The meaning of the three
  instructions \<^verbatim>\<open>liw\<close> uses is that of the PowerPC architecture: \<^verbatim>\<open>addi\<close> (primary opcode
  14) adds the sign-extended immediate to \<open>rA\<close>, or to zero when the \<open>rA\<close> field is 0;
  \<^verbatim>\<open>addis\<close> (15) does the same with the immediate shifted left by 16; \<^verbatim>\<open>ori\<close> (24) ors the
  zero-extended immediate into \<open>rS\<close> and puts the result in \<open>rA\<close>. An instruction is
  decoded from its 32-bit word; any other word is not executed.
\<close>

type_synonym regfile = "u32 \<Rightarrow> u32"

definition exec_instr :: "u32 \<Rightarrow> regfile \<Rightarrow> regfile option" where
  "exec_instr w rf =
     (let opcd = drop_bit 26 w;
          rt = drop_bit 21 w AND 31;
          ra = drop_bit 16 w AND 31;
          imm = (ucast w :: u16)
      in if opcd = 14 then Some (rf(rt := (if ra = 0 then 0 else rf ra) + scast imm))
         else if opcd = 15
           then Some (rf(rt := (if ra = 0 then 0 else rf ra) + push_bit 16 (ucast imm)))
         else if opcd = 24 then Some (rf(ra := rf rt OR ucast imm))
         else None)"

fun exec_words :: "u32 list \<Rightarrow> regfile \<Rightarrow> regfile option" where
  "exec_words [] rf = Some rf"
| "exec_words (w # ws) rf =
     (case exec_instr w rf of None \<Rightarrow> None | Some rf' \<Rightarrow> exec_words ws rf')"

text \<open>The value of a register after a run, if every word was executed.\<close>

definition reg_after :: "GPR \<Rightarrow> regfile option \<Rightarrow> u32 option" where
  "reg_after reg r = map_option (\<lambda>rf. rf (gpr reg)) r"

definition zero_regs :: regfile where
  "zero_regs = (\<lambda>r. 0)"




subsection \<open>Concrete emitters\<close>

definition zero_mem :: memory where
  "zero_mem = (\<lambda>x. 0)"

definition heap_at :: "uintptr \<Rightarrow> uintptr \<Rightarrow> uintptr" where
  "heap_at p = (\<lambda>n. p)"

text \<open>
  A big-endian emitter whose buffer starts at \<open>base\<close>, with \<open>used\<close> bytes emitted out of
  \<open>reserved\<close>, the default grow step, and an allocator that answers \<open>0x200000\<close>.
\<close>

definition emitter_at :: "GrowingMode \<Rightarrow> uintptr \<Rightarrow> uintptr \<Rightarrow> uintptr \<Rightarrow> emitter" where
  "emitter_at mode base used reserved =
     \<lparr>code = base, currentPointer = base + used, reservedSize = reserved,
      autoGrowSize = 64 * 1024, growMode = mode, bigEndian = True,
      mem = zero_mem, heap_new = heap_at 0x200000\<rparr>"

section \<open>Stores and loads\<close>

lemma length_le_bytes: "length (le_bytes n v) = n"
  by (induction n arbitrary: v) simp_all

lemma le_word_le_bytes: "(le_word (le_bytes n v) :: 't::len word) = take_bit (8 * n) v"
proof (induction n arbitrary: v)
  case 0
  show ?case by simp
next
  case (Suc n)
  show ?case
    by (simp add: Suc, rule bit_word_eqI) (auto simp add: bit_simps)
qed

lemma length_host_bytes: "length (host_bytes be (v :: 't::len word)) = LENGTH('t) div 8"
  by (simp add: host_bytes_def length_le_bytes)

lemma host_word_host_bytes:
  "8 dvd LENGTH('t) \<Longrightarrow> host_word be (host_bytes be (v :: 't::len word)) = v"
  by (auto simp add: host_word_def host_bytes_def le_word_le_bytes take_bit_word_eq_self)

lemma load_store_same:
  "length bs < 2 ^ 32 \<Longrightarrow> load_bytes (store_bytes m a bs) a (length bs) = bs"
  by (auto simp add: load_bytes_def store_bytes_def unat_of_nat intro!: nth_equalityI)

lemma peek_poke_same:
  assumes "8 dvd LENGTH('t)" and "LENGTH('t) \<le> 64"
  shows "peek (poke a (v :: 't::len word) s) a = v"
proof -
  have "load_bytes (store_bytes (mem s) a (host_bytes (bigEndian s) v)) a
          (length (host_bytes (bigEndian s) v)) = host_bytes (bigEndian s) v"
    using assms by (intro load_store_same) (simp add: length_host_bytes)
  then show ?thesis
    using assms by (simp add: peek_def poke_def length_host_bytes host_word_host_bytes)
qed

lemma mem_poke_other:
  "LENGTH('t) div 8 \<le> unat (x - a) \<Longrightarrow> mem (poke a (v :: 't::len word) s) x = mem s x"
  by (simp add: poke_def store_bytes_def length_host_bytes)

lemma poke_fields [simp]:
  "code (poke a v s) = code s"
  "currentPointer (poke a v s) = currentPointer s"
  "reservedSize (poke a v s) = reservedSize s"
  "autoGrowSize (poke a v s) = autoGrowSize s"
  "growMode (poke a v s) = growMode s"
  "bigEndian (poke a v s) = bigEndian s"
  "heap_new (poke a v s) = heap_new s"
  by (simp_all add: poke_def)

lemma load_store_disjoint:
  assumes "length bs \<le> unat (a' - a)" and "unat (a' - a) + n \<le> 2 ^ 32"
  shows "load_bytes (store_bytes m a bs) a' n = load_bytes m a' n"
proof -
  have "unat (a' + of_nat i - a) = unat (a' - a) + i" if "i < n" for i
  proof -
    have "a' + of_nat i - a = (a' - a) + of_nat i" by simp
    moreover have "unat ((a' - a) + (of_nat i :: uintptr)) = unat (a' - a) + i"
      using that assms(2) by (simp add: unat_word_ariths unat_of_nat)
    ultimately show ?thesis by (simp only:)
  qed
  then show ?thesis
    using assms(1) by (auto simp add: load_bytes_def store_bytes_def)
qed

lemma peek_poke_disjoint:
  assumes "4 \<le> unat (a' - a)" and "unat (a' - a) + 4 \<le> 2 ^ 32"
  shows "(peek (poke a (v :: u32) s) a' :: u32) = peek s a'"
  using assms by (simp add: peek_def poke_def load_store_disjoint length_host_bytes)

lemma writeT_no_grow:
  "\<not> will_grow (LENGTH('t) div 8) s \<Longrightarrow>
   writeT (v :: 't::len word) s
     = (poke (currentPointer s) v s)\<lparr>currentPointer := currentPointer s + of_nat (LENGTH('t) div 8)\<rparr>"
  by (simp add: writeT_def)

lemma fixed_no_grow: "growMode s = FixedSize \<Longrightarrow> \<not> will_grow n s"
  by (simp add: will_grow_def)


section \<open>The rotate-and-mask aliases\<close>

lemma ucast_of_nat_u8: "n < 256 \<Longrightarrow> (ucast (of_nat n :: u8) :: u32) = of_nat n"
  by (simp add: unsigned_of_nat take_bit_nat_eq_self)

lemma of_nat_and_31: "n \<le> 31 \<Longrightarrow> (of_nat n :: u32) AND 31 = of_nat n"
proof -
  assume "n \<le> 31"
  then have "(of_nat n :: u32) < 2 ^ 5"
    by (simp add: word_less_nat_alt unat_of_nat)
  then have "(of_nat n :: u32) AND mask 5 = of_nat n"
    by (rule less_mask_eq)
  then show ?thesis by (simp add: mask_eq_exp_minus_1)
qed

text \<open>
  C3. For all registers \<open>d\<close>, \<open>s\<close>, every \<open>setFlags\<close> value \<open>f\<close> and all arguments \<open>n\<close>,
  \<open>k\<close> in 0..31 (\<open>n \<ge> 1\<close> for the two extract forms), each of \<^verbatim>\<open>slwi\<close>, \<^verbatim>\<open>srwi\<close>,
  \<^verbatim>\<open>clrlwi\<close>, \<^verbatim>\<open>clrrwi\<close>, \<^verbatim>\<open>rotlwi\<close>, \<^verbatim>\<open>rotrwi\<close>, \<^verbatim>\<open>extlwi\<close>, \<^verbatim>\<open>extrwi\<close> does to the
  emitter exactly what the raw \<^verbatim>\<open>rlwinm\<close> call with the aliased fields does, the fields
  being computed on the naturals (\<open>31 - n\<close>, \<open>32 - n\<close>, \<open>n - 1\<close>, \<open>k + n\<close>); and the raw
  call appends the single word with those fields at bits 11, 6 and 1.
\<close>

theorem rlwinm_aliases:
  assumes "n \<le> 31" and "k \<le> 31" and "m \<le> 31"
  shows "slwi f d s (of_nat n) st = rlwinm f d s (of_nat n) 0 (of_nat (31 - n)) st
       \<and> srwi f d s (of_nat n) st = rlwinm f d s (of_nat (32 - n)) (of_nat n) 31 st
       \<and> clrlwi f d s (of_nat n) st = rlwinm f d s 0 (of_nat n) 31 st
       \<and> clrrwi f d s (of_nat n) st = rlwinm f d s 0 0 (of_nat (31 - n)) st
       \<and> rotlwi f d s (of_nat n) st = rlwinm f d s (of_nat n) 0 31 st
       \<and> rotrwi f d s (of_nat n) st = rlwinm f d s (of_nat (32 - n)) 0 31 st
       \<and> (1 \<le> n \<longrightarrow> extlwi f d s (of_nat n) (of_nat k) st
                       = rlwinm f d s (of_nat k) 0 (of_nat (n - 1)) st)
       \<and> (1 \<le> n \<longrightarrow> extrwi f d s (of_nat n) (of_nat k) st
                       = rlwinm f d s (of_nat (k + n)) (of_nat (32 - n)) 31 st)
       \<and> rlwinm f d s (of_nat n) (of_nat k) (of_nat m) st
           = write32 (0x54000000 OR push_bit 21 (gpr s) OR push_bit 16 (gpr d)
                      OR push_bit 11 (of_nat n) OR push_bit 6 (of_nat k)
                      OR push_bit 1 (of_nat m) OR bool_bit f) st"
proof -
  have sub31: "(of_nat (31 - n) :: u8) = 31 - of_nat n"
    using assms by (simp add: of_nat_diff)
  have sub32: "(of_nat (32 - n) :: u8) = 32 - of_nat n"
    using assms by (simp add: of_nat_diff)
  have pred: "1 \<le> n \<Longrightarrow> (of_nat (n - 1) :: u8) = of_nat n - 1"
    by (simp add: of_nat_diff)
  have raw: "rlwinm f d s (of_nat n) (of_nat k) (of_nat m) st
           = write32 (0x54000000 OR push_bit 21 (gpr s) OR push_bit 16 (gpr d)
                      OR push_bit 11 (of_nat n) OR push_bit 6 (of_nat k)
                      OR push_bit 1 (of_nat m) OR bool_bit f) st"
    using assms by (simp add: rlwinm_def ucast_of_nat_u8 of_nat_and_31)
  show ?thesis
    using raw
    by (simp add: slwi_def srwi_def clrlwi_def clrrwi_def rotlwi_def rotrwi_def
        extlwi_def extrwi_def sub31 sub32 pred)
qed

theorem rlwinm_aliases_witness:
  "(5::nat) \<le> 31 \<and> (10::nat) \<le> 31 \<and> (16::nat) \<le> 31
   \<and> slwi False r3 r4 5 (emitter_at FixedSize 0x1000 0 0x10000)
       = rlwinm False r3 r4 5 0 26 (emitter_at FixedSize 0x1000 0 0x10000)
   \<and> extrwi False r3 r4 5 10 (emitter_at FixedSize 0x1000 0 0x10000)
       = rlwinm False r3 r4 15 27 31 (emitter_at FixedSize 0x1000 0 0x10000)
   \<and> rlwinm False r3 r4 5 10 16 (emitter_at FixedSize 0x1000 0 0x10000)
       = write32 0x54832AA0 (emitter_at FixedSize 0x1000 0 0x10000)"
  using rlwinm_aliases [of 5 10 16 False r3 r4 "emitter_at FixedSize 0x1000 0 0x10000"]
  by (simp add: bool_bit_def)

section \<open>Appending to the buffer\<close>

lemma emitter_at_fields [simp]:
  "code (emitter_at mode base used reserved) = base"
  "currentPointer (emitter_at mode base used reserved) = base + used"
  "reservedSize (emitter_at mode base used reserved) = reserved"
  "autoGrowSize (emitter_at mode base used reserved) = 65536"
  "growMode (emitter_at mode base used reserved) = mode"
  "bigEndian (emitter_at mode base used reserved) = True"
  "heap_new (emitter_at mode base used reserved) = heap_at 0x200000"
  by (simp_all add: emitter_at_def)

lemma peek_cursor_update [simp]:
  "peek (s\<lparr>currentPointer := c\<rparr>) a = peek s a"
  by (simp add: peek_def)

lemma writeT_fixed_fields:
  assumes "growMode s = FixedSize"
  shows "code (writeT v s) = code s"
    and "reservedSize (writeT v s) = reservedSize s"
    and "growMode (writeT v s) = FixedSize"
    and "currentPointer (writeT (v :: 't::len word) s)
           = currentPointer s + of_nat (LENGTH('t) div 8)"
  using assms by (simp_all add: writeT_no_grow fixed_no_grow)

text \<open>
  C6, as the code has it. In \<^verbatim>\<open>FixedSize\<close> mode \<^verbatim>\<open>write\<close> never looks at the reserved
  size: whatever the cursor and the reserved size are, a write of a byte, halfword, word
  or doubleword stores the value at the cursor, leaves every byte outside the stored
  range as it was, and advances the cursor by the size of the value.
\<close>

theorem fixed_write_unchecked:
  assumes "growMode s = FixedSize"
  shows "currentPointer (write8 v1 s) = currentPointer s + 1
       \<and> peek (write8 v1 s) (currentPointer s) = v1
       \<and> (\<forall>x. 1 \<le> unat (x - currentPointer s) \<longrightarrow> mem (write8 v1 s) x = mem s x)
       \<and> currentPointer (write16 v2 s) = currentPointer s + 2
       \<and> peek (write16 v2 s) (currentPointer s) = v2
       \<and> (\<forall>x. 2 \<le> unat (x - currentPointer s) \<longrightarrow> mem (write16 v2 s) x = mem s x)
       \<and> currentPointer (write32 v4 s) = currentPointer s + 4
       \<and> peek (write32 v4 s) (currentPointer s) = v4
       \<and> (\<forall>x. 4 \<le> unat (x - currentPointer s) \<longrightarrow> mem (write32 v4 s) x = mem s x)
       \<and> currentPointer (write64 v8 s) = currentPointer s + 8
       \<and> peek (write64 v8 s) (currentPointer s) = v8
       \<and> (\<forall>x. 8 \<le> unat (x - currentPointer s) \<longrightarrow> mem (write64 v8 s) x = mem s x)"
proof -
  have ng: "\<not> will_grow n s" for n
    using assms by (rule fixed_no_grow)
  show ?thesis
    by (simp add: write8_def write16_def write32_def write64_def writeT_no_grow ng
        peek_poke_same mem_poke_other)
qed

theorem fixed_write_unchecked_witness:
  "growMode (emitter_at FixedSize 0x1000 4 4) = FixedSize
   \<and> currentPointer (write32 0x60000000 (emitter_at FixedSize 0x1000 4 4)) = 0x1008
   \<and> peek (write32 0x60000000 (emitter_at FixedSize 0x1000 4 4)) 0x1004 = (0x60000000 :: u32)"
  using fixed_write_unchecked [of "emitter_at FixedSize 0x1000 4 4" 0 0 "0x60000000" 0]
  by simp

text \<open>
  C6, as the claim states it, fails. A \<^verbatim>\<open>FixedSize\<close> emitter whose 4 reserved bytes are
  all used appends a further word: the call returns, the used size becomes 8, and the
  word is stored past the reserved end, at address \<open>0x1004\<close>.
\<close>

theorem fixed_overflow_counterexample:
  "growMode (emitter_at FixedSize 0x1000 4 4) = FixedSize
   \<and> reservedSize (emitter_at FixedSize 0x1000 4 4)
       < getCodeSize (emitter_at FixedSize 0x1000 4 4) + 4
   \<and> perform (Dw 0x60000000) (emitter_at FixedSize 0x1000 4 4)
       = Inr (write32 0x60000000 (emitter_at FixedSize 0x1000 4 4))
   \<and> getCodeSize (write32 0x60000000 (emitter_at FixedSize 0x1000 4 4)) = 8
   \<and> peek (write32 0x60000000 (emitter_at FixedSize 0x1000 4 4)) 0x1004 = (0x60000000 :: u32)"
  using peek_poke_same [where 't = 32 and a = "0x1004" and v = "0x60000000"
      and s = "emitter_at FixedSize 0x1000 4 4"]
  by (simp add: getCodeSize_def dw_def write32_def writeT_no_grow fixed_no_grow)

text \<open>What a reallocation does: the new size, and the used bytes copied.\<close>

lemma growBuffer_size: "reservedSize (growBuffer s) = reservedSize s + autoGrowSize s"
  by (simp add: growBuffer_def Let_def)

lemma growBuffer_copies:
  "i < getCodeSize s \<Longrightarrow> mem (growBuffer s) (code (growBuffer s) + i) = mem s (code s + i)"
  by (simp add: growBuffer_def Let_def memcpy_def)

lemma writeT_grows:
  "will_grow (LENGTH('t) div 8) s \<Longrightarrow>
   reservedSize (writeT (v :: 't::len word) s) = reservedSize s + autoGrowSize s"
  by (simp add: writeT_def Let_def growBuffer_size)

text \<open>
  C7 at the boundary. An \<^verbatim>\<open>AutoGrow\<close> emitter with 4 of its 8 reserved bytes used
  appends a word that fills the buffer exactly. The test \<^verbatim>\<open>currentSize + sizeof(T) >=
  reservedSize\<close> holds, so the buffer is reallocated: the reserved size becomes
  \<open>8 + 65536\<close> and the base moves to the address the allocator returned.
\<close>

theorem autogrow_exact_fill_grows:
  "unat (getCodeSize (emitter_at AutoGrow 0x1000 4 8)) + 4
     = unat (reservedSize (emitter_at AutoGrow 0x1000 4 8))
   \<and> will_grow 4 (emitter_at AutoGrow 0x1000 4 8)
   \<and> reservedSize (write32 0x60000000 (emitter_at AutoGrow 0x1000 4 8)) = 8 + 65536
   \<and> code (write32 0x60000000 (emitter_at AutoGrow 0x1000 4 8)) = 0x200000"
  by (simp add: getCodeSize_def will_grow_def write32_def writeT_def growBuffer_def Let_def
      heap_at_def)

section \<open>Emitting branches\<close>

lemma growBuffer_used: "getCodeSize (growBuffer s) = getCodeSize s"
  by (simp add: growBuffer_def getCodeSize_def Let_def)

lemma writeT_used:
  "getCodeSize (writeT (v :: 't::len word) s) = getCodeSize s + of_nat (LENGTH('t) div 8)"
  using growBuffer_used [of s] by (simp add: writeT_def getCodeSize_def Let_def)

lemma writeT_peek_offset:
  assumes "8 dvd LENGTH('t)" and "LENGTH('t) \<le> 64"
  shows "peek (writeT (v :: 't::len word) s) (code (writeT v s) + getCodeSize s) = v"
proof -
  have "code (growBuffer s) + getCodeSize s = currentPointer (growBuffer s)"
    by (simp add: growBuffer_def getCodeSize_def Let_def)
  moreover have "code s + getCodeSize s = currentPointer s"
    by (simp add: getCodeSize_def)
  ultimately show ?thesis
    using assms by (simp add: writeT_def Let_def peek_poke_same)
qed

text \<open>
  What the branch calls do in every mode. For every condition \<open>c\<close> (ordinal 0..7) and
  every link flag, \<^verbatim>\<open>bcx\<close> appends, by one \<^verbatim>\<open>write32\<close>, the word
  \<open>0x40800000 OR (1 << 24 if c \<le> 3) OR ((c AND 3) << 16) OR link\<close>, whose displacement
  field is zero, and returns the token made of the cursor before the append and
  \<^verbatim>\<open>Branch14\<close>; \<^verbatim>\<open>b ()\<close> and \<^verbatim>\<open>bl ()\<close> append \<open>0x48000000 OR link\<close> and return a
  \<^verbatim>\<open>Branch24\<close> token. One \<^verbatim>\<open>write32\<close> adds 4 to the used size and puts the word at the old
  used offset of the buffer; when it does not reallocate (always in \<^verbatim>\<open>FixedSize\<close> mode) that
  is the address in the token, and no other byte changes.
\<close>

theorem bcx_encoding:
  "snd (bcx c link s) = (currentPointer s, Branch14)
   \<and> fst (bcx c link s)
       = write32 (0x40800000 OR (if cond_ord c \<le> 3 then push_bit 24 1 else 0)
                  OR push_bit 16 (cond_ord c AND 3) OR (if link then 1 else 0)) s
   \<and> cond_ord c \<le> 7
   \<and> (0x40800000 OR (if cond_ord c \<le> 3 then push_bit 24 1 else 0)
        OR push_bit 16 (cond_ord c AND 3) OR (if link then 1 else 0)) AND 0xFFFC = 0
   \<and> snd (bx link s) = (currentPointer s, Branch24)
   \<and> fst (bx link s) = write32 (0x48000000 OR (if link then 1 else 0)) s
   \<and> branch_b s = bx False s \<and> branch_bl s = bx True s
   \<and> getCodeSize (write32 w s) = getCodeSize s + 4
   \<and> peek (write32 w s) (code (write32 w s) + getCodeSize s) = w
   \<and> (\<not> will_grow 4 s \<longrightarrow>
        code (write32 w s) = code s
        \<and> peek (write32 w s) (currentPointer s) = w
        \<and> (\<forall>x. 4 \<le> unat (x - currentPointer s) \<longrightarrow> mem (write32 w s) x = mem s x))"
proof -
  have enc: "fst (bcx c link s)
       = write32 (0x40800000 OR (if cond_ord c \<le> 3 then push_bit 24 1 else 0)
                  OR push_bit 16 (cond_ord c AND 3) OR (if link then 1 else 0)) s"
    by (simp add: bcx_def emitBranch14_def bool_bit_def Let_def)
  have ord: "cond_ord c \<le> 7" by (cases c) simp_all
  have zero: "(0x40800000 OR (if cond_ord c \<le> 3 then push_bit 24 1 else 0)
        OR push_bit 16 (cond_ord c AND 3) OR (if link then 1 else 0)) AND 0xFFFC = (0 :: u32)"
    by (cases c; cases link) simp_all
  have used: "getCodeSize (write32 w s) = getCodeSize s + 4"
    using writeT_used [of w s] by (simp add: write32_def)
  have off: "peek (write32 w s) (code (write32 w s) + getCodeSize s) = w"
    using writeT_peek_offset [of w s] by (simp add: write32_def)
  have here: "\<not> will_grow 4 s \<Longrightarrow> code (write32 w s) = code s
        \<and> peek (write32 w s) (currentPointer s) = w
        \<and> (\<forall>x. 4 \<le> unat (x - currentPointer s) \<longrightarrow> mem (write32 w s) x = mem s x)"
    by (simp add: write32_def writeT_no_grow peek_poke_same mem_poke_other)
  show ?thesis
    using enc ord zero used off here
    by (simp add: bcx_def emitBranch14_def bx_def branch_b_def branch_bl_def bool_bit_def Let_def)
qed

theorem bcx_encoding_witness:
  "\<not> will_grow 4 (emitter_at FixedSize 0x1000 0 0x10000)
   \<and> snd (bcx Ne False (emitter_at FixedSize 0x1000 0 0x10000)) = (0x1000, Branch14)
   \<and> fst (bcx Ne False (emitter_at FixedSize 0x1000 0 0x10000))
       = write32 0x40820000 (emitter_at FixedSize 0x1000 0 0x10000)
   \<and> peek (write32 0x40820000 (emitter_at FixedSize 0x1000 0 0x10000)) 0x1000 = (0x40820000 :: u32)"
  using bcx_encoding [of Ne False "emitter_at FixedSize 0x1000 0 0x10000" "0x40820000"]
  by (simp add: fixed_no_grow)

lemma le_word_zeros: "le_word (replicate n 0) = 0"
  by (induction n) simp_all

text \<open>
  C2 at an append that reallocates. An \<^verbatim>\<open>AutoGrow\<close> emitter with 4 of its 8 reserved bytes
  used emits \<^verbatim>\<open>bne ()\<close>. \<^verbatim>\<open>emitBranch14\<close> takes the cursor \<open>0x1004\<close> for the token, then
  \<^verbatim>\<open>write32\<close> moves the buffer to \<open>0x200000\<close> and stores the branch word at \<open>0x200004\<close>.
  The token's address is in the old buffer, where the word read is 0, not the branch.
\<close>

theorem bcx_token_stale_after_grow:
  "will_grow 4 (emitter_at AutoGrow 0x1000 4 8)
   \<and> snd (bcx Ne False (emitter_at AutoGrow 0x1000 4 8)) = (0x1004, Branch14)
   \<and> code (fst (bcx Ne False (emitter_at AutoGrow 0x1000 4 8))) = 0x200000
   \<and> currentPointer (fst (bcx Ne False (emitter_at AutoGrow 0x1000 4 8))) = 0x200008
   \<and> peek (fst (bcx Ne False (emitter_at AutoGrow 0x1000 4 8))) 0x200004 = (0x40820000 :: u32)
   \<and> peek (fst (bcx Ne False (emitter_at AutoGrow 0x1000 4 8))) 0x1004 = (0 :: u32)"
proof -
  let ?s = "emitter_at AutoGrow 0x1000 4 8"
  let ?g = "growBuffer ?s"
  have g: "will_grow 4 ?s"
    by (simp add: will_grow_def getCodeSize_def)
  have gc: "code ?g = 0x200000" and gp: "currentPointer ?g = 0x200004"
    by (simp_all add: growBuffer_def getCodeSize_def heap_at_def Let_def)
  have w: "write32 0x40820000 ?s
      = (poke 0x200004 (0x40820000 :: u32) ?g)\<lparr>currentPointer := 0x200008\<rparr>"
    using g by (simp add: write32_def writeT_def Let_def gp)
  have z: "mem ?g x = 0" for x
    by (simp add: growBuffer_def Let_def memcpy_def emitter_at_def zero_mem_def)
  have old: "peek ?g 0x1004 = (0 :: u32)"
    by (simp add: peek_def load_bytes_def host_word_def z map_replicate_const le_word_zeros)
  have stale: "peek (poke 0x200004 (0x40820000 :: u32) ?g) 0x1004 = (0 :: u32)"
    using old by (simp add: peek_poke_disjoint)
  have new: "peek (poke 0x200004 (0x40820000 :: u32) ?g) 0x200004 = (0x40820000 :: u32)"
    by (rule peek_poke_same) simp_all
  have e: "bcx Ne False ?s = (write32 0x40820000 ?s, (0x1004, Branch14))"
    by (simp add: bcx_def emitBranch14_def bool_bit_def)
  show ?thesis
    using g stale new by (simp add: e w gc)
qed

section \<open>Resolving labels\<close>

text \<open>
  C1. For every token \<open>(B, k)\<close> and every target \<open>T\<close>, with \<open>disp = T - B\<close> (the 32-bit
  difference, read signed): if \<open>disp\<close> has a nonzero bit among its low two,
  \<^verbatim>\<open>setLabel\<close> panics. Otherwise, for \<^verbatim>\<open>Branch14\<close>: if \<open>-32768 \<le> disp \<le> 32767\<close> the word
  \<open>w\<close> at \<open>B\<close> is rewritten to \<open>(w AND NOT 0xFFFE) OR (disp AND 0xFFFC)\<close>; else if \<open>T\<close>
  itself, read signed, lies in that range, to \<open>(w AND NOT 0xFFFE) OR (T AND 0xFFFC) OR 2\<close>;
  else \<^verbatim>\<open>setLabel\<close> panics. For \<^verbatim>\<open>Branch24\<close> the same holds with the masks \<open>0x3FFFFFE\<close>
  and \<open>0x3FFFFFC\<close> and the range \<open>-0x2000000 .. 0x1FFFFFF\<close>. Rewriting the word at \<open>B\<close>
  to \<open>v\<close> means: a read at \<open>B\<close> gives \<open>v\<close>, the cursor and the base stay, and so does
  every byte outside the four at \<open>B\<close>.
\<close>

theorem setLabel_cases:
  "(((T - B) AND 3 \<noteq> 0 \<longrightarrow> setLabel (B, k) T s = Inl Panic)
    \<and> ((T - B) AND 3 = 0 \<longrightarrow>
       (k = Branch14 \<longrightarrow>
          (- 32768 \<le> sint (T - B) \<and> sint (T - B) \<le> 32767 \<longrightarrow>
             setLabel (B, k) T s
               = Inr (poke B (((peek s B :: u32) AND NOT 0xFFFE) OR ((T - B) AND 0xFFFC)) s))
        \<and> (\<not> (- 32768 \<le> sint (T - B) \<and> sint (T - B) \<le> 32767)
             \<and> - 32768 \<le> sint T \<and> sint T \<le> 32767 \<longrightarrow>
             setLabel (B, k) T s
               = Inr (poke B (((peek s B :: u32) AND NOT 0xFFFE) OR (T AND 0xFFFC) OR 2) s))
        \<and> (\<not> (- 32768 \<le> sint (T - B) \<and> sint (T - B) \<le> 32767)
             \<and> \<not> (- 32768 \<le> sint T \<and> sint T \<le> 32767) \<longrightarrow>
             setLabel (B, k) T s = Inl Panic))
     \<and> (k = Branch24 \<longrightarrow>
          (- 0x2000000 \<le> sint (T - B) \<and> sint (T - B) \<le> 0x1FFFFFF \<longrightarrow>
             setLabel (B, k) T s
               = Inr (poke B (((peek s B :: u32) AND NOT 0x3FFFFFE) OR ((T - B) AND 0x3FFFFFC)) s))
        \<and> (\<not> (- 0x2000000 \<le> sint (T - B) \<and> sint (T - B) \<le> 0x1FFFFFF)
             \<and> - 0x2000000 \<le> sint T \<and> sint T \<le> 0x1FFFFFF \<longrightarrow>
             setLabel (B, k) T s
               = Inr (poke B (((peek s B :: u32) AND NOT 0x3FFFFFE) OR (T AND 0x3FFFFFC) OR 2) s))
        \<and> (\<not> (- 0x2000000 \<le> sint (T - B) \<and> sint (T - B) \<le> 0x1FFFFFF)
             \<and> \<not> (- 0x2000000 \<le> sint T \<and> sint T \<le> 0x1FFFFFF) \<longrightarrow>
             setLabel (B, k) T s = Inl Panic))))
   \<and> (\<forall>v :: u32. peek (poke B v s) B = v
         \<and> currentPointer (poke B v s) = currentPointer s
         \<and> code (poke B v s) = code s
         \<and> (\<forall>x. 4 \<le> unat (x - B) \<longrightarrow> mem (poke B v s) x = mem s x))"
proof -
  show ?thesis
    by (cases k) (simp_all add: setLabel_def Let_def peek_poke_same mem_poke_other)
qed


theorem setLabel_cases_witness:
  "(0x1008 - 0x1000 :: uintptr) AND 3 = 0
   \<and> - 32768 \<le> sint (0x1008 - 0x1000 :: uintptr) \<and> sint (0x1008 - 0x1000 :: uintptr) \<le> 32767
   \<and> setLabel (0x1000, Branch14) 0x1008 (emitter_at FixedSize 0x1000 8 0x10000)
       = Inr (poke 0x1000
           (((peek (emitter_at FixedSize 0x1000 8 0x10000) 0x1000 :: u32) AND NOT 0xFFFE) OR 8)
           (emitter_at FixedSize 0x1000 8 0x10000))
   \<and> (0x1006 - 0x1000 :: uintptr) AND 3 \<noteq> 0
   \<and> setLabel (0x1000, Branch14) 0x1006 (emitter_at FixedSize 0x1000 8 0x10000) = Inl Panic
   \<and> \<not> (- 32768 \<le> sint (0x7000 - 0x80001000 :: uintptr) \<and> sint (0x7000 - 0x80001000 :: uintptr) \<le> 32767)
   \<and> - 32768 \<le> sint (0x7000 :: uintptr) \<and> sint (0x7000 :: uintptr) \<le> 32767
   \<and> setLabel (0x80001000, Branch14) 0x7000 (emitter_at FixedSize 0x80001000 8 0x10000)
       = Inr (poke 0x80001000
           (((peek (emitter_at FixedSize 0x80001000 8 0x10000) 0x80001000 :: u32) AND NOT 0xFFFE)
              OR 0x7000 OR 2)
           (emitter_at FixedSize 0x80001000 8 0x10000))
   \<and> setLabel (0x80001000, Branch24) 0x90001000 (emitter_at FixedSize 0x80001000 8 0x10000)
       = Inl Panic
   \<and> setLabel (0x1000, Branch24) 0x101000 (emitter_at FixedSize 0x1000 8 0x10000)
       = Inr (poke 0x1000
           (((peek (emitter_at FixedSize 0x1000 8 0x10000) 0x1000 :: u32) AND NOT 0x3FFFFFE)
              OR 0x100000)
           (emitter_at FixedSize 0x1000 8 0x10000))"
  using setLabel_cases [of "0x1008" "0x1000" Branch14 "emitter_at FixedSize 0x1000 8 0x10000"]
    setLabel_cases [of "0x1006" "0x1000" Branch14 "emitter_at FixedSize 0x1000 8 0x10000"]
    setLabel_cases [of "0x7000" "0x80001000" Branch14 "emitter_at FixedSize 0x80001000 8 0x10000"]
    setLabel_cases [of "0x90001000" "0x80001000" Branch24 "emitter_at FixedSize 0x80001000 8 0x10000"]
    setLabel_cases [of "0x101000" "0x1000" Branch24 "emitter_at FixedSize 0x1000 8 0x10000"]
  by simp

lemma store_bytes_idem: "store_bytes (store_bytes m a bs) a bs = store_bytes m a bs"
  by (auto simp add: store_bytes_def fun_eq_iff)

lemma poke_idem: "poke a v (poke a v s) = poke a v s"
  by (simp add: poke_def store_bytes_idem)

lemma patch_idem: "(((w AND c) OR x) AND c) OR x = (w AND c) OR (x :: u32)"
  by (rule bit_word_eqI) (auto simp add: bit_simps)

lemma repatch:
  "poke B ((((peek (poke B ((w AND c) OR x) s) B :: u32) AND c) OR x))
     (poke B ((w AND c) OR x) s) = poke B ((w AND c) OR (x :: u32)) s"
  by (simp add: peek_poke_same patch_idem poke_idem)

text \<open>
  C9. Whenever \<^verbatim>\<open>setLabel (token, target)\<close> returns (the branch is in range of its relative
  form, or of the absolute fallback), a second \<^verbatim>\<open>setLabel\<close> with the same token and target
  returns too and leaves the whole emitter, memory included, as the first call left it.
\<close>

theorem setLabel_idempotent:
  assumes "setLabel l t s = Inr s'"
  shows "setLabel l t s' = Inr s'"
proof -
  obtain B k where l: "l = (B, k)" by (cases l)
  show ?thesis
  proof (cases k)
    case Branch14
    with assms l show ?thesis
      by (auto simp add: setLabel_def Let_def repatch split: if_splits)
  next
    case Branch24
    with assms l show ?thesis
      by (auto simp add: setLabel_def Let_def repatch split: if_splits)
  qed
qed


theorem setLabel_idempotent_witness:
  "setLabel (0x1000, Branch14) 0x1008 (emitter_at FixedSize 0x1000 8 0x10000)
     = Inr (poke 0x1000
         (((peek (emitter_at FixedSize 0x1000 8 0x10000) 0x1000 :: u32) AND NOT 0xFFFE) OR 8)
         (emitter_at FixedSize 0x1000 8 0x10000))
   \<and> setLabel (0x1000, Branch14) 0x1008
       (poke 0x1000
         (((peek (emitter_at FixedSize 0x1000 8 0x10000) 0x1000 :: u32) AND NOT 0xFFFE) OR 8)
         (emitter_at FixedSize 0x1000 8 0x10000))
     = Inr (poke 0x1000
         (((peek (emitter_at FixedSize 0x1000 8 0x10000) 0x1000 :: u32) AND NOT 0xFFFE) OR 8)
         (emitter_at FixedSize 0x1000 8 0x10000))"
proof -
  have first: "setLabel (0x1000, Branch14) 0x1008 (emitter_at FixedSize 0x1000 8 0x10000)
     = Inr (poke 0x1000
         (((peek (emitter_at FixedSize 0x1000 8 0x10000) 0x1000 :: u32) AND NOT 0xFFFE) OR 8)
         (emitter_at FixedSize 0x1000 8 0x10000))"
    by (simp add: setLabel_def)
  show ?thesis
    using first setLabel_idempotent [OF first] by simp
qed

lemma sint_ucast_small:
  fixes d :: u32
  assumes "LENGTH('n::len) \<le> 32"
    and "- (2 ^ (LENGTH('n) - 1)) \<le> sint d" and "sint d < 2 ^ (LENGTH('n) - 1)"
  shows "sint (ucast d :: 'n word) = sint d"
proof -
  have "sint (ucast d :: 'n word) = signed_take_bit (LENGTH('n) - 1) (uint d)"
    using assms(1) by (simp add: sint_uint signed_take_bit_take_bit unsigned_ucast_eq)
  also have "\<dots> = signed_take_bit (LENGTH('n) - 1) (sint d)"
  proof -
    have "LENGTH('n) - 1 \<le> 31" using assms(1) by simp
    then have "min (LENGTH('n) - 1) 31 = LENGTH('n) - 1" by simp
    then show ?thesis
      by (simp add: sint_uint signed_take_bit_signed_take_bit del: One_nat_def)
  qed
  also have "\<dots> = sint d"
    using assms(2,3) by (simp add: signed_take_bit_int_eq_self)
  finally show ?thesis .
qed







lemma poke_cursor_update:
  "poke a v (s\<lparr>currentPointer := c\<rparr>) = (poke a v s)\<lparr>currentPointer := c\<rparr>"
  by (simp add: poke_def)










section \<open>Loading a 32-bit value\<close>

lemma gpr_less: "gpr reg < 32"
  by (cases reg) simp_all

lemma bit_small:
  fixes r :: u32
  assumes "r < 2 ^ k" and "bit r n"
  shows "n < k"
proof -
  have "take_bit k r = r" using assms(1) by (simp add: less_mask_eq take_bit_eq_mask)
  then have "bit (take_bit k r) n" using assms(2) by simp
  then show ?thesis by (simp add: bit_simps)
qed

lemma decode_fields:
  fixes op rt ra x :: u32
  assumes "op < 2 ^ 6" and "rt < 2 ^ 5" and "ra < 2 ^ 5"
  shows "drop_bit 26 (push_bit 26 op OR push_bit 21 rt OR push_bit 16 ra OR take_bit 16 x) = op"
    and "drop_bit 21 (push_bit 26 op OR push_bit 21 rt OR push_bit 16 ra OR take_bit 16 x) AND mask 5 = rt"
    and "drop_bit 16 (push_bit 26 op OR push_bit 21 rt OR push_bit 16 ra OR take_bit 16 x) AND mask 5 = ra"
    and "(ucast (push_bit 26 op OR push_bit 21 rt OR push_bit 16 ra OR take_bit 16 x) :: u16) = ucast x"
proof -
  note b = bit_small [OF assms(1)] bit_small [OF assms(2)] bit_small [OF assms(3)]
  show "drop_bit 26 (push_bit 26 op OR push_bit 21 rt OR push_bit 16 ra OR take_bit 16 x) = op"
    by (rule bit_word_eqI) (auto simp add: bit_simps dest: b)
  show "drop_bit 21 (push_bit 26 op OR push_bit 21 rt OR push_bit 16 ra OR take_bit 16 x) AND mask 5 = rt"
    by (rule bit_word_eqI) (auto simp add: bit_simps dest: b)
  show "drop_bit 16 (push_bit 26 op OR push_bit 21 rt OR push_bit 16 ra OR take_bit 16 x) AND mask 5 = ra"
    by (rule bit_word_eqI) (auto simp add: bit_simps dest: b)
  show "(ucast (push_bit 26 op OR push_bit 21 rt OR push_bit 16 ra OR take_bit 16 x) :: u16) = ucast x"
    by (rule bit_word_eqI) (auto simp add: bit_simps dest: b)
qed


lemma exec_addi:
  fixes rt x :: u32
  assumes "rt < 32"
  shows "exec_instr (0x38000000 OR push_bit 21 rt OR take_bit 16 x) rf
           = Some (rf(rt := scast (ucast x :: u16)))"
  using decode_fields [of 14 rt 0 x] assms
  by (simp add: exec_instr_def mask_eq_exp_minus_1)

lemma exec_addis:
  fixes rt x :: u32
  assumes "rt < 32"
  shows "exec_instr (0x3C000000 OR push_bit 21 rt OR take_bit 16 x) rf
           = Some (rf(rt := push_bit 16 (ucast (ucast x :: u16))))"
  using decode_fields [of 15 rt 0 x] assms
  by (simp add: exec_instr_def mask_eq_exp_minus_1)

lemma exec_ori:
  fixes rs ra x :: u32
  assumes "rs < 32" and "ra < 32"
  shows "exec_instr (0x60000000 OR push_bit 21 rs OR push_bit 16 ra OR take_bit 16 x) rf
           = Some (rf(ra := rf rs OR ucast (ucast x :: u16)))"
  using decode_fields [of 24 rs ra x] assms
  by (simp add: exec_instr_def mask_eq_exp_minus_1)

lemma sint_low:
  fixes v :: u32
  assumes "v \<le> 0x7FFF"
  shows "- (2 ^ 15) \<le> sint v \<and> sint v < 2 ^ 15"
proof -
  have u: "uint v \<le> 32767" using assms by (simp add: word_le_def)
  have u0: "- 2147483648 \<le> uint v" by (rule order_trans [of _ 0]) simp_all
  have "sint v = signed_take_bit 31 (uint v)" by (simp add: sint_uint)
  also have "\<dots> = uint v" using u u0 by (intro signed_take_bit_int_eq_self) simp_all
  finally have "sint v = uint v" .
  moreover have "- 32768 \<le> uint v" by (rule order_trans [of _ 0]) simp_all
  ultimately show ?thesis using u by simp
qed

lemma sint_high:
  fixes v :: u32
  assumes "0xFFFF8000 \<le> v"
  shows "- (2 ^ 15) \<le> sint v \<and> sint v < 2 ^ 15"
proof -
  have u: "4294934528 \<le> uint v" using assms by (simp add: word_le_def)
  have u2: "uint v < 4294967296" using uint_lt2p [of v] by simp
  have "(uint v + 2147483648) mod 4294967296
          = ((uint v - 2147483648) + 4294967296) mod 4294967296" by (simp add: add.commute)
  also have "\<dots> = (uint v - 2147483648) mod 4294967296" by (simp only: mod_add_self2)
  also have "\<dots> = uint v - 2147483648" using u u2 by (intro mod_pos_pos_trivial) simp_all
  finally have m: "(uint v + 2147483648) mod 4294967296 = uint v - 2147483648" .
  have "sint v = take_bit 32 (uint v + 2 ^ 31) - 2 ^ 31"
    by (simp add: sint_uint signed_take_bit_eq_take_bit_shift)
  also have "take_bit 32 (uint v + 2 ^ 31) = uint v - 2 ^ 31"
    using m by (simp add: take_bit_eq_mod)
  finally show ?thesis using u u2 by simp
qed

lemma scast_low_half:
  fixes v :: u32
  assumes "v \<le> 0x7FFF \<or> 0xFFFF8000 \<le> v"
  shows "(scast (ucast v :: u16) :: u32) = v"
proof -
  have "- (2 ^ 15) \<le> sint v \<and> sint v < 2 ^ 15"
    using assms sint_low [of v] sint_high [of v] by blast
  then have "sint (ucast v :: u16) = sint v"
    by (intro sint_ucast_small) simp_all
  then show ?thesis by (simp add: scast_eq)
qed

lemma high_half:
  fixes v :: u32
  assumes "v AND 0xFFFF = 0"
  shows "push_bit 16 (ucast (ucast (drop_bit 16 v) :: u16)) = v"
proof (rule bit_word_eqI)
  fix n assume "n < LENGTH(32)"
  have "bit (v AND mask 16) n = bit (0 :: u32) n" using assms by (simp add: mask_eq_exp_minus_1)
  then have "bit v n \<Longrightarrow> 16 \<le> n" by (cases "n < 16") (simp_all add: bit_simps)
  then show "bit (push_bit 16 (ucast (ucast (drop_bit 16 v) :: u16)) :: u32) n = bit v n"
    using \<open>n < LENGTH(32)\<close> by (auto simp add: bit_simps)
qed

lemma both_halves:
  fixes v :: u32
  shows "push_bit 16 (ucast (ucast (drop_bit 16 v) :: u16)) OR ucast (ucast v :: u16) = v"
  by (rule bit_word_eqI) (auto simp add: bit_simps)

lemma low_half_word: "(ucast (ucast v :: u16) :: u32) = v AND 0xFFFF"
proof -
  have "(ucast (ucast v :: u16) :: u32) = v AND mask 16"
    by (rule bit_word_eqI) (auto simp add: bit_simps)
  then show ?thesis by (simp add: mask_eq_exp_minus_1)
qed

lemma high_half_word: "(ucast (ucast (drop_bit 16 v :: u32) :: u16) :: u32) = drop_bit 16 v"
  by (rule bit_word_eqI) (auto simp add: bit_simps dest: bit_imp_le_length)

lemma take_bit_low: "take_bit 16 (v :: u32) = v AND 0xFFFF"
  by (simp add: take_bit_eq_mask mask_eq_exp_minus_1)

lemma take_bit_high: "take_bit 16 (drop_bit 16 (v :: u32)) = drop_bit 16 v"
  by (rule bit_word_eqI) (auto simp add: bit_simps dest: bit_imp_le_length)

lemma li_word:
  "li reg (ucast v) s = write32 (0x38000000 OR push_bit 21 (gpr reg) OR (v AND 0xFFFF)) s"
  by (simp add: li_def addi_def low_half_word)

lemma lis_word:
  "lis reg (ucast (drop_bit 16 v)) s
     = write32 (0x3C000000 OR push_bit 21 (gpr reg) OR drop_bit 16 v) s"
  by (simp add: lis_def addis_def high_half_word)

lemma ori_word:
  "ori reg reg (ucast v) s
     = write32 (0x60000000 OR push_bit 21 (gpr reg) OR push_bit 16 (gpr reg) OR (v AND 0xFFFF)) s"
  by (simp add: ori_def low_half_word)

lemma run_li:
  assumes "v \<le> 0x7FFF \<or> 0xFFFF8000 \<le> v"
  shows "reg_after reg
           (exec_words [0x38000000 OR push_bit 21 (gpr reg) OR (v AND 0xFFFF)] rf) = Some v"
  using exec_addi [OF gpr_less, of reg v rf, unfolded take_bit_low] scast_low_half [OF assms]
  by (simp add: reg_after_def)

lemma run_lis:
  assumes "v AND 0xFFFF = 0"
  shows "reg_after reg
           (exec_words [0x3C000000 OR push_bit 21 (gpr reg) OR drop_bit 16 v] rf) = Some v"
  using exec_addis [OF gpr_less, of reg "drop_bit 16 v" rf, unfolded take_bit_high]
    high_half [OF assms]
  by (simp add: reg_after_def)

lemma run_lis_ori:
  "reg_after reg
     (exec_words [0x3C000000 OR push_bit 21 (gpr reg) OR drop_bit 16 v,
                  0x60000000 OR push_bit 21 (gpr reg) OR push_bit 16 (gpr reg) OR (v AND 0xFFFF)]
        rf) = Some v"
  using exec_addis [OF gpr_less, of reg "drop_bit 16 v" rf, unfolded take_bit_high]
    exec_ori [OF gpr_less gpr_less, of reg reg v, unfolded take_bit_low] both_halves [of v]
  by (simp add: reg_after_def)

text \<open>
  C4. For every register and every 32-bit value \<open>v\<close>: if \<open>v \<le> 0x7FFF\<close> or
  \<open>v \<ge> 0xFFFF8000\<close>, \<^verbatim>\<open>liw\<close> is \<^verbatim>\<open>li\<close> of the low halfword and appends the one word
  \<^verbatim>\<open>addi reg, r0, low16 (v)\<close>; else if the low halfword of \<open>v\<close> is zero it is \<^verbatim>\<open>lis\<close> of the
  high halfword and appends the one word \<^verbatim>\<open>addis reg, r0, v >> 16\<close>; otherwise it appends
  two words, that \<^verbatim>\<open>lis\<close> and then \<^verbatim>\<open>ori reg, reg, low16 (v)\<close>. In each case, decoding and
  executing the appended words from any register file leaves \<open>v\<close> in the register.
\<close>

theorem liw_loads_value:
  "((v \<le> 0x7FFF \<or> 0xFFFF8000 \<le> v) \<longrightarrow>
      liw reg v s = li reg (ucast v) s
      \<and> li reg (ucast v) s
          = write32 (0x38000000 OR push_bit 21 (gpr reg) OR (v AND 0xFFFF)) s
      \<and> getCodeSize (liw reg v s) = getCodeSize s + 4
      \<and> reg_after reg
          (exec_words [0x38000000 OR push_bit 21 (gpr reg) OR (v AND 0xFFFF)] rf) = Some v)
   \<and> (\<not> (v \<le> 0x7FFF \<or> 0xFFFF8000 \<le> v) \<and> v AND 0xFFFF = 0 \<longrightarrow>
      liw reg v s = lis reg (ucast (drop_bit 16 v)) s
      \<and> lis reg (ucast (drop_bit 16 v)) s
          = write32 (0x3C000000 OR push_bit 21 (gpr reg) OR drop_bit 16 v) s
      \<and> getCodeSize (liw reg v s) = getCodeSize s + 4
      \<and> reg_after reg
          (exec_words [0x3C000000 OR push_bit 21 (gpr reg) OR drop_bit 16 v] rf) = Some v)
   \<and> (\<not> (v \<le> 0x7FFF \<or> 0xFFFF8000 \<le> v) \<and> v AND 0xFFFF \<noteq> 0 \<longrightarrow>
      liw reg v s = ori reg reg (ucast v) (lis reg (ucast (drop_bit 16 v)) s)
      \<and> ori reg reg (ucast v) (lis reg (ucast (drop_bit 16 v)) s)
          = write32 (0x60000000 OR push_bit 21 (gpr reg) OR push_bit 16 (gpr reg)
                     OR (v AND 0xFFFF))
              (write32 (0x3C000000 OR push_bit 21 (gpr reg) OR drop_bit 16 v) s)
      \<and> getCodeSize (liw reg v s) = getCodeSize s + 8
      \<and> reg_after reg
          (exec_words [0x3C000000 OR push_bit 21 (gpr reg) OR drop_bit 16 v,
                       0x60000000 OR push_bit 21 (gpr reg) OR push_bit 16 (gpr reg)
                         OR (v AND 0xFFFF)] rf) = Some v)"
proof -
  have used: "getCodeSize (write32 w st) = getCodeSize st + 4" for w st
    using writeT_used [of w st] by (simp add: write32_def)
  show ?thesis
    using run_li [of v reg rf] run_lis [of v reg rf] run_lis_ori [of reg v rf]
    by (simp add: liw_def li_word lis_word ori_word used)
qed

theorem liw_loads_value_witness:
  "\<not> ((0x12345678 :: u32) \<le> 0x7FFF \<or> (0xFFFF8000 :: u32) \<le> 0x12345678)
   \<and> (0x12345678 :: u32) AND 0xFFFF \<noteq> 0
   \<and> liw r1 0x12345678 (emitter_at FixedSize 0x1000 0 0x10000)
       = write32 0x60215678 (write32 0x3C201234 (emitter_at FixedSize 0x1000 0 0x10000))
   \<and> reg_after r1 (exec_words [0x3C201234, 0x60215678] zero_regs) = Some 0x12345678
   \<and> ((0xFFFFF000 :: u32) \<le> 0x7FFF \<or> (0xFFFF8000 :: u32) \<le> 0xFFFFF000)
   \<and> liw r1 0xFFFFF000 (emitter_at FixedSize 0x1000 0 0x10000)
       = write32 0x3820F000 (emitter_at FixedSize 0x1000 0 0x10000)
   \<and> reg_after r1 (exec_words [0x3820F000] zero_regs) = Some 0xFFFFF000
   \<and> \<not> ((0x12340000 :: u32) \<le> 0x7FFF \<or> (0xFFFF8000 :: u32) \<le> 0x12340000)
   \<and> (0x12340000 :: u32) AND 0xFFFF = 0
   \<and> liw r1 0x12340000 (emitter_at FixedSize 0x1000 0 0x10000)
       = write32 0x3C201234 (emitter_at FixedSize 0x1000 0 0x10000)
   \<and> reg_after r1 (exec_words [0x3C201234] zero_regs) = Some 0x12340000"
  using liw_loads_value [of "0x12345678" r1 "emitter_at FixedSize 0x1000 0 0x10000" zero_regs]
    liw_loads_value [of "0xFFFFF000" r1 "emitter_at FixedSize 0x1000 0 0x10000" zero_regs]
    liw_loads_value [of "0x12340000" r1 "emitter_at FixedSize 0x1000 0 0x10000" zero_regs]
  by simp

section \<open>Alignment\<close>

text \<open>
  What \<^verbatim>\<open>align\<close> does: nothing for 1, a panic below 1, and otherwise as many zero bytes
  as the remainder of the cursor, which is fewer than \<open>n\<close>.
\<close>

lemma align_one: "align 1 s = Inr s"
  by (simp add: align_def)

lemma align_panics: "sint n < 1 \<Longrightarrow> align n s = Inl Panic"
  by (auto simp add: align_def)

lemma align_count:
  assumes "n \<noteq> 1" and "1 \<le> sint n"
  shows "align n s = Inr (write_zeros (unat (getCurr s mod n)) s)"
    and "unat (getCurr s mod n) < unat n"
proof -
  show "align n s = Inr (write_zeros (unat (getCurr s mod n)) s)"
    using assms by (simp add: align_def Let_def)
  have "n \<noteq> 0" using assms(2) by auto
  then have "0 < unat n" by (simp add: unat_gt_0)
  then show "unat (getCurr s mod n) < unat n"
    by (simp add: unat_mod)
qed

lemma write8_fixed:
  "growMode s = FixedSize \<Longrightarrow>
   write8 v s = (poke (currentPointer s) v s)\<lparr>currentPointer := currentPointer s + 1\<rparr>"
  by (simp add: write8_def writeT_no_grow fixed_no_grow)

lemma write_zeros_other:
  assumes "growMode s = FixedSize" and "k \<le> unat (x - currentPointer s)"
  shows "mem (write_zeros k s) x = mem s x"
  using assms
proof (induction k arbitrary: s)
  case 0
  show ?case by simp
next
  case (Suc k)
  let ?s1 = "write8 0 s"
  have s1: "?s1 = (poke (currentPointer s) (0 :: u8) s)\<lparr>currentPointer := currentPointer s + 1\<rparr>"
    using Suc.prems(1) by (rule write8_fixed)
  have fx: "growMode ?s1 = FixedSize" using Suc.prems(1) by (simp add: s1)
  have pos: "1 \<le> unat (x - currentPointer s)" using Suc.prems(2) by simp
  then have "x - currentPointer s \<noteq> 0" by auto
  then have "unat (x - currentPointer s - 1) = unat (x - currentPointer s) - 1"
    by (simp add: unat_minus_one)
  then have "k \<le> unat (x - currentPointer ?s1)"
    using Suc.prems(2) by (simp add: s1 diff_diff_eq)
  with fx have "mem (write_zeros k ?s1) x = mem ?s1 x" by (rule Suc.IH)
  also have "\<dots> = mem s x" using pos by (simp add: s1 mem_poke_other)
  finally show ?case by simp
qed

lemma write_zeros_bytes:
  assumes "growMode s = FixedSize" and "k < 2 ^ 32" and "i < k"
  shows "mem (write_zeros k s) (currentPointer s + of_nat i) = 0"
  using assms
proof (induction k arbitrary: s i)
  case 0
  then show ?case by simp
next
  case (Suc k)
  let ?s1 = "write8 0 s"
  have s1: "?s1 = (poke (currentPointer s) (0 :: u8) s)\<lparr>currentPointer := currentPointer s + 1\<rparr>"
    using Suc.prems(1) by (rule write8_fixed)
  have fx: "growMode ?s1 = FixedSize" using Suc.prems(1) by (simp add: s1)
  show ?case
  proof (cases i)
    case 0
    have "k \<le> unat (currentPointer s - currentPointer ?s1)"
      using Suc.prems(2) by (simp add: s1 unsigned_minus_1_eq_mask mask_eq_exp_minus_1)
    with fx have "mem (write_zeros k ?s1) (currentPointer s) = mem ?s1 (currentPointer s)"
      by (rule write_zeros_other)
    also have "\<dots> = 0"
      by (simp add: s1 poke_def store_bytes_def host_bytes_def)
    finally show ?thesis using 0 by simp
  next
    case (Suc j)
    then have "j < k" using Suc.prems(3) by simp
    moreover have "k < 2 ^ 32" using Suc.prems(2) by simp
    ultimately have "mem (write_zeros k ?s1) (currentPointer ?s1 + of_nat j) = 0"
      using fx by (intro Suc.IH)
    then show ?thesis using Suc by (simp add: s1 add.assoc)
  qed
qed

text \<open>
  C5 at a cursor one byte past a word boundary. \<^verbatim>\<open>align (4)\<close> computes the remainder 1
  and appends that many zero bytes, one, where three are needed: the cursor ends at
  \<open>0x1002\<close>, which is 2 modulo 4.
\<close>

theorem align_misses_boundary:
  "map_sum id currentPointer (align 4 (emitter_at FixedSize 0x1000 1 0x10000)) = Inr 0x1002
   \<and> (0x1002 :: uintptr) mod 4 = 2"
  by (simp add: align_def getCurr_def write8_def writeT_no_grow fixed_no_grow)

section \<open>The buffer of a fixed-size emitter\<close>

lemma advances_refl: "advances 0 s s"
  by (simp add: advances_def)

lemma advances_trans: "advances n s s1 \<Longrightarrow> advances m s1 s2 \<Longrightarrow> advances (n + m) s s2"
  by (simp add: advances_def)

lemma advances_writeT:
  "growMode s = FixedSize \<Longrightarrow> advances (LENGTH('t) div 8) s (writeT (v :: 't::len word) s)"
  by (simp add: advances_def writeT_no_grow fixed_no_grow)

lemma advances_write8: "growMode s = FixedSize \<Longrightarrow> advances (Suc 0) s (write8 v s)"
  using advances_writeT [of s v] by (simp add: write8_def)

lemma advances_write16: "growMode s = FixedSize \<Longrightarrow> advances 2 s (write16 v s)"
  using advances_writeT [of s v] by (simp add: write16_def)

lemma advances_write32: "growMode s = FixedSize \<Longrightarrow> advances 4 s (write32 v s)"
  using advances_writeT [of s v] by (simp add: write32_def)

lemma advances_write64: "growMode s = FixedSize \<Longrightarrow> advances 8 s (write64 v s)"
  using advances_writeT [of s v] by (simp add: write64_def)

lemma advances_fixed: "advances n s s' \<Longrightarrow> growMode s = FixedSize \<Longrightarrow> growMode s' = FixedSize"
  by (simp add: advances_def)

lemma advances_two_words:
  assumes "growMode s = FixedSize"
  shows "advances 8 s (write32 w2 (write32 w1 s))"
proof -
  have a: "advances 4 s (write32 w1 s)" using assms by (rule advances_write32)
  then have "growMode (write32 w1 s) = FixedSize" using assms by (rule advances_fixed)
  then have "advances 4 (write32 w1 s) (write32 w2 (write32 w1 s))" by (rule advances_write32)
  with a show ?thesis using advances_trans by fastforce
qed

lemma advances_fold_db:
  "growMode s = FixedSize \<Longrightarrow> advances (length xs) s (fold db xs s)"
proof (induction xs arbitrary: s)
  case Nil
  show ?case by (simp add: advances_refl)
next
  case (Cons x xs)
  have a: "advances (Suc 0) s (db x s)" using Cons.prems by (simp add: db_def advances_write8)
  then have "growMode (db x s) = FixedSize" using Cons.prems by (rule advances_fixed)
  then have "advances (length xs) (db x s) (fold db xs (db x s))" by (rule Cons.IH)
  with a have "advances (Suc 0 + length xs) s (fold db xs (db x s))" by (rule advances_trans)
  then show ?case by simp
qed

lemma advances_ds:
  assumes "growMode s = FixedSize"
  shows "advances (Suc (length (takeWhile (\<lambda>c. c \<noteq> 0) str))) s (ds str s)"
proof -
  let ?xs = "takeWhile (\<lambda>c. c \<noteq> 0) str"
  have a: "advances (length ?xs) s (fold db ?xs s)" using assms by (rule advances_fold_db)
  then have "growMode (fold db ?xs s) = FixedSize" using assms by (rule advances_fixed)
  then have "advances (Suc 0) (fold db ?xs s) (db 0 (fold db ?xs s))"
    by (simp add: db_def advances_write8)
  with a have "advances (length ?xs + Suc 0) s (db 0 (fold db ?xs s))" by (rule advances_trans)
  then show ?thesis by (simp add: ds_def)
qed

lemma advances_write_zeros:
  "growMode s = FixedSize \<Longrightarrow> advances n s (write_zeros n s)"
proof (induction n arbitrary: s)
  case 0
  show ?case by (simp add: advances_refl)
next
  case (Suc n)
  have a: "advances (Suc 0) s (write8 0 s)" using Suc.prems by (rule advances_write8)
  then have "growMode (write8 0 s) = FixedSize" using Suc.prems by (rule advances_fixed)
  then have "advances n (write8 0 s) (write_zeros n (write8 0 s))" by (rule Suc.IH)
  with a have "advances (Suc 0 + n) s (write_zeros n (write8 0 s))" by (rule advances_trans)
  then show ?case by simp
qed

lemma advances_poke: "advances 0 s (poke a v s)"
  by (simp add: advances_def)

lemma advances_setLabel: "setLabel l a s = Inr s' \<Longrightarrow> advances 0 s s'"
  by (cases "snd l") (auto simp add: setLabel_def Let_def advances_poke split: if_splits)

lemma perform_advances:
  assumes "growMode s = FixedSize" and "perform x s = Inr s'"
  shows "advances (appends x s) s s'"
proof (cases x)
  case (Liw reg v)
  with assms show ?thesis
    by (auto simp add: liw_def li_def lis_def ori_def addi_def addis_def
        advances_write32 advances_two_words)
next
  case (Liu reg v)
  with assms show ?thesis
    by (auto simp add: liu_def li_def ori_def addi_def advances_write32 advances_two_words)
next
  case (Align n)
  with assms show ?thesis
    by (auto simp add: align_def Let_def advances_refl advances_write_zeros split: if_splits)
next
  case (BxTo link a)
  with assms show ?thesis
    by (auto simp add: bx_to_def Let_def advances_write32 split: if_splits)
qed (use assms in \<open>auto simp add: db_def dh_def dw_def dd_def advances_write8 advances_write16
      advances_write32 advances_write64 advances_ds bcx_def emitBranch14_def bx_def
      advances_setLabel setLabel_here_def\<close>)

lemma perform_all_advances:
  "growMode s = FixedSize \<Longrightarrow> perform_all xs s = Inr s' \<Longrightarrow> advances (appends_all xs s) s s'"
proof (induction xs arbitrary: s)
  case Nil
  then show ?case by (simp add: advances_refl)
next
  case (Cons x xs)
  from Cons.prems(2) obtain s1 where s1: "perform x s = Inr s1" and rest: "perform_all xs s1 = Inr s'"
    by (auto split: sum.splits)
  have a: "advances (appends x s) s s1" using Cons.prems(1) s1 by (rule perform_advances)
  then have "growMode s1 = FixedSize" using Cons.prems(1) by (rule advances_fixed)
  then have "advances (appends_all xs s1) s1 s'" using rest by (rule Cons.IH)
  with a have "advances (appends x s + appends_all xs s1) s s'" by (rule advances_trans)
  then show ?case using s1 by simp
qed

lemma getCodeSize_emitter_at: "getCodeSize (emitter_at mode base used reserved) = used"
  by (simp add: getCodeSize_def)

text \<open>
  C10. In \<^verbatim>\<open>FixedSize\<close> mode, whatever calls a client makes (data directives, \<^verbatim>\<open>align\<close>,
  instructions, \<^verbatim>\<open>liw\<close>, \<^verbatim>\<open>liu\<close>, branches, \<^verbatim>\<open>setLabel\<close>), if the run does not panic then
  the base pointer, the reserved size and the mode are those it started with, so the
  offset of any address from the base is unchanged; the used size has grown by the
  number of bytes the calls appended, and is not below the initial one as long as the
  cursor has not run around the 32-bit address space. \<^verbatim>\<open>setBuffer\<close>, when it returns,
  does set the base and the reserved size.
\<close>

theorem fixed_size_invariant:
  assumes "growMode s = FixedSize" and "perform_all xs s = Inr s'"
  shows "code s' = code s \<and> reservedSize s' = reservedSize s \<and> growMode s' = FixedSize
       \<and> (\<forall>a. a - code s' = a - code s)
       \<and> getCodeSize s' = getCodeSize s + of_nat (appends_all xs s)
       \<and> (unat (getCodeSize s) + appends_all xs s < 2 ^ 32 \<longrightarrow> getCodeSize s \<le> getCodeSize s')
       \<and> (\<forall>p n t. setBuffer p n s = Inr t \<longrightarrow> code t = p \<and> reservedSize t = n)"
proof -
  have a: "advances (appends_all xs s) s s'" using assms by (rule perform_all_advances)
  then have used: "getCodeSize s' = getCodeSize s + of_nat (appends_all xs s)"
    by (simp add: advances_def getCodeSize_def)
  have "getCodeSize s \<le> getCodeSize s'" if "unat (getCodeSize s) + appends_all xs s < 2 ^ 32"
  proof -
    have "unat (getCodeSize s + of_nat (appends_all xs s))
        = unat (getCodeSize s) + appends_all xs s"
      using that by (simp add: unat_word_ariths unat_of_nat)
    then show ?thesis by (simp add: used word_le_nat_alt)
  qed
  moreover have "\<forall>p n t. setBuffer p n s = Inr t \<longrightarrow> code t = p \<and> reservedSize t = n"
    by (auto simp add: setBuffer_def split: if_splits)
  ultimately show ?thesis using a used assms(1) by (simp add: advances_def)
qed

theorem fixed_size_invariant_witness:
  "growMode (emitter_at FixedSize 0x1000 0 0x10000) = FixedSize
   \<and> perform_all [Instr 0x40820000, SetLabel (0x1000, Branch14) 0x1008, Db 0]
        (emitter_at FixedSize 0x1000 0 0x10000)
       = Inr (db 0 (poke 0x1000
           (((peek (write32 0x40820000 (emitter_at FixedSize 0x1000 0 0x10000)) 0x1000 :: u32)
               AND NOT 0xFFFE) OR 8)
           (write32 0x40820000 (emitter_at FixedSize 0x1000 0 0x10000))))
   \<and> code (db 0 (poke 0x1000
           (((peek (write32 0x40820000 (emitter_at FixedSize 0x1000 0 0x10000)) 0x1000 :: u32)
               AND NOT 0xFFFE) OR 8)
           (write32 0x40820000 (emitter_at FixedSize 0x1000 0 0x10000)))) = 0x1000
   \<and> reservedSize (db 0 (poke 0x1000
           (((peek (write32 0x40820000 (emitter_at FixedSize 0x1000 0 0x10000)) 0x1000 :: u32)
               AND NOT 0xFFFE) OR 8)
           (write32 0x40820000 (emitter_at FixedSize 0x1000 0 0x10000)))) = 0x10000
   \<and> getCodeSize (db 0 (poke 0x1000
           (((peek (write32 0x40820000 (emitter_at FixedSize 0x1000 0 0x10000)) 0x1000 :: u32)
               AND NOT 0xFFFE) OR 8)
           (write32 0x40820000 (emitter_at FixedSize 0x1000 0 0x10000)))) = 5
   \<and> unat (getCodeSize (emitter_at FixedSize 0x1000 0 0x10000))
       + appends_all [Instr 0x40820000, SetLabel (0x1000, Branch14) 0x1008, Db 0]
           (emitter_at FixedSize 0x1000 0 0x10000) < 2 ^ 32
   \<and> getCodeSize (emitter_at FixedSize 0x1000 0 0x10000)
       \<le> getCodeSize (db 0 (poke 0x1000
           (((peek (write32 0x40820000 (emitter_at FixedSize 0x1000 0 0x10000)) 0x1000 :: u32)
               AND NOT 0xFFFE) OR 8)
           (write32 0x40820000 (emitter_at FixedSize 0x1000 0 0x10000))))"
proof -
  have mode: "growMode (emitter_at FixedSize 0x1000 0 0x10000) = FixedSize"
    by simp
  have run: "perform_all [Instr 0x40820000, SetLabel (0x1000, Branch14) 0x1008, Db 0]
        (emitter_at FixedSize 0x1000 0 0x10000)
       = Inr (db 0 (poke 0x1000
           (((peek (write32 0x40820000 (emitter_at FixedSize 0x1000 0 0x10000)) 0x1000 :: u32)
               AND NOT 0xFFFE) OR 8)
           (write32 0x40820000 (emitter_at FixedSize 0x1000 0 0x10000))))"
    by (simp add: setLabel_def)
  show ?thesis
    using mode run fixed_size_invariant [OF mode run] getCodeSize_emitter_at [of FixedSize "0x1000" 0 "0x10000"]
    by (simp add: setLabel_def)
qed

end
